theory Spec2Isabelle
  imports Complex_Main "HOL-Library.Multiset"
begin

section \<open>The lantern hacking manager\<close>

text \<open>
  A shallow embedding of the lantern hacking manager (the module that exports
  \<open>createLanternHack\<close>, \<open>updateSignalValue\<close>, \<open>manipulateStation\<close> and
  \<open>getLanternHack\<close>). The module is written in callback style over collaborators
  that are not part of the module: the database connector \<open>dbLanternHack\<close>, the
  authenticator, the object validator, the text tools and the \<open>http\<close> module of Node.

  \<^item> Every collaborator is a field of the record \<open>env\<close>: it gives the answer the
    collaborator passes to its callback, as a function of the arguments of the call.
  \<^item> Every function of the module is a function from its arguments and its callback to
    the list of events it causes, in the order of the source text: the requests sent to
    the collaborators, the timers set and the invocations of the callback. A callback is
    a function from the answer to the events it causes in turn; the callback of the
    transport layer is \<open>transport\<close>, which records the answer as one \<open>Callback\<close> event.
  \<^item> A collaborator is taken to answer before the statement after the call runs. The
    events of one chain of callbacks are in the order of the program; how the chains of
    two pending requests interleave is not modelled.
  \<^item> A JavaScript number that the data model declares an integer (\<open>signalValue\<close>,
    \<open>triesLeft\<close>, \<open>stationId\<close>) is an \<open>int\<close>. The Signal Engine computes with
    fractions; they are exact rationals here, the rounding of double arithmetic is not
    modelled.
  \<^item> Strings are lists of the characters of the Latin-1 range (code points 0 to 255), one
    \<open>char\<close> each. On this range \<open>toLowerCase\<close> is the function of JavaScript: it folds
    \<open>A\<close> to \<open>Z\<close> and the letters from U+00C0 to U+00DE (all but the sign U+00D7) and
    leaves every other character as it is. Characters beyond Latin-1 are not modelled.
  \<^item> Properties keep the names of the source. A parameter or local variable whose name is
    also the name of a property is abbreviated (\<open>sid\<close> for \<open>stationId\<close>, \<open>sv\<close> for
    \<open>signalValue\<close>, \<open>pw\<close> for \<open>password\<close>).
\<close>

subsection \<open>Constants\<close>

definition signalThreshold :: int where
  "signalThreshold = 50"

definition signalDefault :: int where
  "signalDefault = 100"

definition changePercentage :: rat where
  "changePercentage = 2 / 10"

definition signalMaxChange :: int where
  "signalMaxChange = 10"

subsection \<open>Data\<close>

text \<open>The error classes of \<open>errorCreator\<close> that the module creates or passes on.\<close>

datatype error =
    InvalidData string
  | External string
  | DoesNotExist string
  | Database
  | NotAllowed

record station =
  stationId :: int
  isActive :: bool
  signalValue :: int

record passwordHint =
  index :: int
  character :: string

record fakePassword =
  password :: string

record gameUser =
  userName :: string
  password :: string
  passwordType :: string
  passwordHint :: passwordHint
  isCorrect :: bool

record lanternHack =
  owner :: string
  stationId :: int
  gameUsers :: "gameUser list"
  triesLeft :: int

text \<open>
  The object that \<open>createHackData\<close> passes to its callback. Like the object literal of
  the source it has six properties, none of which is \<open>isCorrect\<close>.
\<close>

record hackData =
  passwords :: "string list"
  triesLeft :: int
  userName :: string
  passwordType :: string
  passwordHint :: passwordHint
  stationId :: int

text \<open>
  The \<open>data\<close> objects handed to callbacks:
  \<open>{ success: true }\<close> and \<open>{ response }\<close> of \<open>updateSignalValue\<close>,
  \<open>{ success: true, boostingSignal }\<close> and \<open>{ success: false, triesLeft }\<close> with or
  without \<open>matches: { amount }\<close> of \<open>manipulateStation\<close>, and the hack data.
\<close>

datatype data =
    Success
  | Response nat
  | HackSuccess bool
  | HackFailed int "nat option"
  | HackData hackData

datatype result = Error error | Data data

datatype event =
    GetAllStations
  | GetStation int
  | UpdateSignalValue int int
  | PostRequest int int
  | SetTimeout
  | IsUserAllowed string
  | GetLanternHack string
  | LowerHackTries string
  | RemoveLanternHack string
  | GetAllFakePasswords
  | Callback result
  | ThrowTypeError

type_synonym callback = "result \<Rightarrow> event list"

definition transport :: callback where
  "transport r = [Callback r]"

text \<open>
  The collaborators. \<open>postReply station boost\<close> is the status code of the response of
  the telemetry endpoint to the request, \<open>None\<close> when no response arrives.
\<close>

record env =
  isValidData :: "string \<Rightarrow> bool \<Rightarrow> bool"
  isUserAllowed :: "string \<Rightarrow> error + string"
  db_getAllStations :: "error + station list"
  db_getStation :: "int \<Rightarrow> error + station"
  db_updateSignalValue :: "int \<Rightarrow> int \<Rightarrow> error option"
  postReply :: "int \<Rightarrow> int \<Rightarrow> nat option"
  db_getLanternHack :: "string \<Rightarrow> error + lanternHack"
  db_lowerHackTries :: "string \<Rightarrow> error + lanternHack"
  db_removeLanternHack :: "string \<Rightarrow> error option"
  db_getAllFakePasswords :: "error + fakePassword list"
  shuffleArray :: "string list \<Rightarrow> string list"

subsection \<open>The telemetry request: \<open>postRequest\<close>\<close>

text \<open>
  What the handler that a program passes to \<open>http.request\<close> does with the response:
  whether it consumes the data of the response (it adds a \<open>data\<close> listener, or calls
  \<open>read\<close> or \<open>resume\<close>), and its listener for the event \<open>end\<close>, a function of the
  status code of the response.
\<close>

record responseHandler =
  consumes :: bool
  onEnd :: "nat \<Rightarrow> event list"

text \<open>
  The \<open>http\<close> client of Node, after its documentation: the request is sent; when the
  response arrives the handler runs; the response emits \<open>end\<close> only once its data has
  been consumed, and until then the event does not fire.
\<close>

definition http_request :: "env \<Rightarrow> int \<Rightarrow> int \<Rightarrow> responseHandler \<Rightarrow> event list" where
  "http_request env station boost handler =
     PostRequest station boost #
     (case postReply env station boost of
        None \<Rightarrow> []
      | Some statusCode \<Rightarrow> if consumes handler then onEnd handler statusCode else [])"

text \<open>
  Lines 40 to 60. The handler of \<open>postRequest\<close> adds a listener for \<open>end\<close>, which calls
  the callback with the status code, and does nothing else with the response: it does
  not consume it.
\<close>

definition postRequest :: "env \<Rightarrow> int \<Rightarrow> int \<Rightarrow> (nat \<Rightarrow> event list) \<Rightarrow> event list" where
  "postRequest env station boost callback =
     http_request env station boost \<lparr> consumes = False, onEnd = callback \<rparr>"

subsection \<open>The Signal Engine: \<open>updateSignalValue\<close>\<close>

text \<open>The value that \<open>setNewValue\<close> persists: rounded up, then clamped.\<close>

definition ceilSignalValue :: "rat \<Rightarrow> int" where
  "ceilSignalValue newValue =
     (let minValue = signalDefault - signalThreshold;
          maxValue = signalDefault + signalThreshold;
          ceilValue = \<lceil>newValue\<rceil>
      in if ceilValue > maxValue then maxValue
         else if ceilValue < minValue then minValue
         else ceilValue)"

definition setNewValue :: "env \<Rightarrow> int \<Rightarrow> callback \<Rightarrow> rat \<Rightarrow> event list" where
  "setNewValue env sid callback newValue =
     (let ceilValue = ceilSignalValue newValue
      in UpdateSignalValue sid ceilValue #
         (case db_updateSignalValue env sid ceilValue of
            Some updateError \<Rightarrow> callback (Error updateError)
          | None \<Rightarrow>
              callback (Data Success) @
              postRequest env sid ceilValue
                (\<lambda>response. callback (Data (Response response)))))"

text \<open>The step, after the override (lines 183 to 190 of the source).\<close>

definition signalChange :: "int \<Rightarrow> bool \<Rightarrow> rat" where
  "signalChange sv boostingSignal =
     (let difference = \<bar>sv - signalDefault\<bar>;
          change = of_int (signalThreshold - difference) * changePercentage
      in if boostingSignal \<and> sv < signalDefault then of_int signalMaxChange
         else if \<not> boostingSignal \<and> sv > signalDefault then of_int signalMaxChange
         else change)"

text \<open>The argument of the call of \<open>setNewValue\<close> (line 192).\<close>

definition requestedValue :: "int \<Rightarrow> bool \<Rightarrow> rat" where
  "requestedValue sv boostingSignal =
     of_int sv +
       (if boostingSignal then signalChange sv boostingSignal
        else - \<bar>signalChange sv boostingSignal\<bar>)"

definition updateSignalValue :: "env \<Rightarrow> int \<Rightarrow> bool \<Rightarrow> callback \<Rightarrow> event list" where
  "updateSignalValue env sid boostingSignal callback =
     GetStation sid #
     (case db_getStation env sid of
        Inl error \<Rightarrow> callback (Error error)
      | Inr station \<Rightarrow>
          setNewValue env sid callback
            (requestedValue (signalValue station) boostingSignal))"

text \<open>
  The step and the requested value as the specification words them: the proportional
  step, replaced by the maximal step on the wrong side of the baseline, added when
  boosting and subtracted when cutting.
\<close>

definition spec_step :: "int \<Rightarrow> bool \<Rightarrow> rat" where
  "spec_step sv boosting =
     (let difference = \<bar>sv - signalDefault\<bar>;
          step = of_int (signalThreshold - difference) * changePercentage
      in if (boosting \<and> sv < signalDefault) \<or> (\<not> boosting \<and> sv > signalDefault)
         then of_int signalMaxChange else step)"

definition spec_requestedValue :: "int \<Rightarrow> bool \<Rightarrow> rat" where
  "spec_requestedValue sv boosting =
     (if boosting then of_int sv + spec_step sv boosting
      else of_int sv - spec_step sv boosting)"

subsection \<open>The Decay Scheduler: \<open>resetStations\<close>\<close>

text \<open>The local variable \<open>newSignalValue\<close> after lines 80 to 88.\<close>

definition newSignalValue :: "int \<Rightarrow> int" where
  "newSignalValue sv =
     (if sv \<noteq> signalDefault
      then (if sv > signalDefault then sv - 1 else sv + 1)
      else sv)"

text \<open>The body of the \<open>forEach\<close>. The callback of the telemetry request does nothing.\<close>

definition resetStation :: "env \<Rightarrow> callback \<Rightarrow> station \<Rightarrow> event list" where
  "resetStation env callback st =
     (let sv = signalValue st;
          sid = station.stationId st
      in if sv \<noteq> signalDefault
         then UpdateSignalValue sid (newSignalValue sv) #
              (case db_updateSignalValue env sid (newSignalValue sv) of
                 Some updateError \<Rightarrow> callback (Error updateError)
               | None \<Rightarrow>
                   postRequest env sid (newSignalValue sv) (\<lambda>response. []) @ [SetTimeout])
         else [])"

definition resetStations :: "env \<Rightarrow> callback \<Rightarrow> event list" where
  "resetStations env callback =
     GetAllStations #
     (case db_getAllStations env of
        Inl error \<Rightarrow> callback (Error error)
      | Inr stations \<Rightarrow> concat (map (resetStation env callback) stations))"

subsection \<open>The challenge payload: \<open>createHackData\<close>\<close>



subsection \<open>Guess evaluation: \<open>manipulateStation\<close>\<close>

definition lowerChar :: "char \<Rightarrow> char" where
  "lowerChar c =
     (let n = (of_char c :: nat)
      in if (65 \<le> n \<and> n \<le> 90) \<or> (192 \<le> n \<and> n \<le> 222 \<and> n \<noteq> 215)
         then char_of (n + 32) else c)"

definition toLowerCase :: "string \<Rightarrow> string" where
  "toLowerCase s = map lowerChar s"

text \<open>\<open>indexOf\<close> of strings and arrays: the first index of the element, or \<open>-1\<close>.\<close>

fun indexOf :: "'a list \<Rightarrow> 'a \<Rightarrow> int" where
  "indexOf [] c = - 1"
| "indexOf (x # xs) c =
     (if x = c then 0
      else (let i = indexOf xs c in if i < 0 then - 1 else i + 1))"

text \<open>Lines 385 and 386: the characters of the guess that the \<open>filter\<close> keeps.\<close>

definition matches :: "string \<Rightarrow> string \<Rightarrow> string" where
  "matches correctPassword pw =
     (let sentPassword = toLowerCase pw
      in filter (\<lambda>c. indexOf correctPassword c = indexOf sentPassword c) sentPassword)"

text \<open>
  The match count as the specification words it: the number of positions at which the
  case-folded guess and the correct password have the same character.
\<close>

definition spec_positionalMatches :: "string \<Rightarrow> string \<Rightarrow> nat" where
  "spec_positionalMatches correctPassword pw =
     length (filter (\<lambda>(g, c). g = c) (zip (toLowerCase pw) correctPassword))"

definition manipulateStation ::
    "env \<Rightarrow> string \<Rightarrow> bool \<Rightarrow> string \<Rightarrow> callback \<Rightarrow> event list" where
  "manipulateStation env pw boostingSignal token callback =
     (if \<not> isValidData env pw boostingSignal
      then callback (Error (InvalidData ''{ password, boostingSignal }''))
      else
        IsUserAllowed token #
        (case isUserAllowed env token of
           Inl error \<Rightarrow> callback (Error error)
         | Inr user \<Rightarrow>
             GetLanternHack user #
             (case db_getLanternHack env user of
                Inl getError \<Rightarrow> callback (Error getError)
              | Inr hack \<Rightarrow>
                  (case find isCorrect (gameUsers hack) of
                     None \<Rightarrow> [ThrowTypeError]
                   | Some correctUser \<Rightarrow>
                       if gameUser.password correctUser = toLowerCase pw
                          \<and> lanternHack.triesLeft hack > 0
                       then
                         updateSignalValue env (lanternHack.stationId hack) boostingSignal
                           (\<lambda>r. case r of
                                  Error updateError \<Rightarrow> callback (Error (External ''wrecking''))
                                | Data d \<Rightarrow>
                                    RemoveLanternHack user #
                                    (case db_removeLanternHack env user of
                                       Some removeError \<Rightarrow> callback (Error removeError)
                                     | None \<Rightarrow> callback (Data (HackSuccess boostingSignal))))
                       else
                         LowerHackTries user #
                         (case db_lowerHackTries env user of
                            Inl lowerError \<Rightarrow> callback (Error lowerError)
                          | Inr loweredHack \<Rightarrow>
                              if lanternHack.triesLeft loweredHack \<le> 0
                              then
                                RemoveLanternHack user #
                                (case db_removeLanternHack env user of
                                   Some removeError \<Rightarrow> callback (Error removeError)
                                 | None \<Rightarrow>
                                     callback (Data (HackFailed
                                       (lanternHack.triesLeft loweredHack) None)))
                              else
                                callback (Data (HackFailed
                                  (lanternHack.triesLeft loweredHack)
                                  (Some (length
                                    (matches (gameUser.password correctUser) pw))))))))))"

subsection \<open>Observations on event lists\<close>

text \<open>The answers handed to the callback of the transport layer, in order.\<close>

fun callbacks :: "event list \<Rightarrow> result list" where
  "callbacks [] = []"
| "callbacks (Callback r # es) = r # callbacks es"
| "callbacks (e # es) = callbacks es"

text \<open>
  The write requests sent to the Station Store, as pairs of station and value. The value
  persisted for a station is the value of the last write request sent for it.
\<close>

fun signalWrites :: "event list \<Rightarrow> (int \<times> int) list" where
  "signalWrites [] = []"
| "signalWrites (UpdateSignalValue i v # es) = (i, v) # signalWrites es"
| "signalWrites (e # es) = signalWrites es"

text \<open>
  The requests of \<open>manipulateStation\<close> that change a session of the Session Store: a
  session that receives none of them is preserved with its tries.
\<close>

fun sessionWrites :: "event list \<Rightarrow> event list" where
  "sessionWrites [] = []"
| "sessionWrites (LowerHackTries u # es) = LowerHackTries u # sessionWrites es"
| "sessionWrites (RemoveLanternHack u # es) = RemoveLanternHack u # sessionWrites es"
| "sessionWrites (e # es) = sessionWrites es"

text \<open>
  The events that only the success branch of \<open>manipulateStation\<close> causes: the requests
  of the Signal Engine and the answer \<open>{ success: true, boostingSignal }\<close>. The removal
  of the session is not among them, since the branch of the exhausted tries removes the
  session too.
\<close>

fun successEvent :: "event \<Rightarrow> bool" where
  "successEvent (GetStation i) = True"
| "successEvent (UpdateSignalValue i v) = True"
| "successEvent (PostRequest i v) = True"
| "successEvent (Callback (Data (HackSuccess b))) = True"
| "successEvent e = False"

subsection \<open>An example world\<close>

text \<open>
  Two candidates, the first of them correct, a session of the user \<open>carol\<close> against
  station 5, and collaborators that all answer without error: the store answers
  \<open>lowerHackTries\<close> with the session with one try less, the telemetry endpoint answers
  200, and \<open>shuffleArray\<close> reverses its argument.
\<close>

definition alice :: gameUser where
  "alice = \<lparr> gameUser.userName = ''alice'', gameUser.password = ''abcee'',
             gameUser.passwordType = ''A'',
             gameUser.passwordHint = \<lparr> index = 2, character = ''c'' \<rparr>,
             isCorrect = True \<rparr>"

definition bob :: gameUser where
  "bob = \<lparr> gameUser.userName = ''bob'', gameUser.password = ''qwert'',
           gameUser.passwordType = ''B'',
           gameUser.passwordHint = \<lparr> index = 0, character = ''q'' \<rparr>,
           isCorrect = False \<rparr>"

definition exampleHack :: "int \<Rightarrow> lanternHack" where
  "exampleHack tries =
     \<lparr> owner = ''carol'', lanternHack.stationId = 5, gameUsers = [alice, bob],
       lanternHack.triesLeft = tries \<rparr>"

definition exampleStation :: "int \<Rightarrow> int \<Rightarrow> station" where
  "exampleStation sid sv =
     \<lparr> station.stationId = sid, isActive = True, signalValue = sv \<rparr>"

definition exampleEnv :: "int \<Rightarrow> int \<Rightarrow> env" where
  "exampleEnv tries sv =
     \<lparr> isValidData = (\<lambda>pw boostingSignal. True),
       isUserAllowed = (\<lambda>token. Inr ''carol''),
       db_getAllStations = Inr [exampleStation 5 sv],
       db_getStation = (\<lambda>sid. Inr (exampleStation sid sv)),
       db_updateSignalValue = (\<lambda>sid v. None),
       postReply = (\<lambda>sid v. Some 200),
       db_getLanternHack = (\<lambda>user. Inr (exampleHack tries)),
       db_lowerHackTries = (\<lambda>user. Inr (exampleHack (tries - 1))),
       db_removeLanternHack = (\<lambda>user. None),
       db_getAllFakePasswords =
         Inr [\<lparr> fakePassword.password = ''zzzzz'' \<rparr>, \<lparr> fakePassword.password = ''yyyyy'' \<rparr>],
       shuffleArray = rev \<rparr>"




text \<open>The example world with another list of stations, for the decay tick.\<close>

definition exampleDecayEnv :: "station list \<Rightarrow> env" where
  "exampleDecayEnv stations = (exampleEnv 4 100) \<lparr> db_getAllStations := Inr stations \<rparr>"

text \<open>The example world with a Station Store that fails to read, or fails to write.\<close>

definition exampleReadFailureEnv :: env where
  "exampleReadFailureEnv = (exampleEnv 4 100) \<lparr> db_getStation := (\<lambda>sid. Inl Database) \<rparr>"

definition exampleWriteFailureEnv :: env where
  "exampleWriteFailureEnv =
     (exampleEnv 4 100) \<lparr> db_updateSignalValue := (\<lambda>sid v. Some Database) \<rparr>"

section \<open>Properties\<close>

subsection \<open>The telemetry request\<close>

text \<open>
  \<open>postRequest\<close> sends the request and never calls its callback: its handler does not
  consume the response, so the event \<open>end\<close> does not fire.
\<close>

lemma postRequest_events: "postRequest env station boost callback = [PostRequest station boost]"
  by (simp add: postRequest_def http_request_def split: option.splits)

subsection \<open>The Signal Engine\<close>

lemma ceilSignalValue_range:
  "signalDefault - signalThreshold \<le> ceilSignalValue x
     \<and> ceilSignalValue x \<le> signalDefault + signalThreshold"
  by (simp add: ceilSignalValue_def Let_def signalDefault_def signalThreshold_def)

lemma ceilSignalValue_max_min: "ceilSignalValue x = max 50 (min 150 \<lceil>x\<rceil>)"
  by (simp add: ceilSignalValue_def Let_def signalDefault_def signalThreshold_def)

lemma updateSignalValue_writes:
  "signalWrites (updateSignalValue env sid b transport) =
     (case db_getStation env sid of
        Inl e \<Rightarrow> []
      | Inr st \<Rightarrow> [(sid, ceilSignalValue (requestedValue (signalValue st) b))])"
  by (simp add: updateSignalValue_def setNewValue_def postRequest_events transport_def Let_def
      split: sum.splits option.splits)

text \<open>
  Claim C4. Every value that \<open>updateSignalValue\<close> asks the Station Store to persist lies
  within \<open>[baseline - threshold, baseline + threshold]\<close>, that is \<open>[50, 150]\<close>, whatever
  the prior \<open>signalValue\<close> of the station and whatever the direction: it is the requested
  value rounded up and then clamped.
\<close>

theorem updateSignalValue_within_threshold:
  assumes "(i, v) \<in> set (signalWrites (updateSignalValue env sid boostingSignal transport))"
  shows "signalDefault - signalThreshold \<le> v \<and> v \<le> signalDefault + signalThreshold
     \<and> 50 \<le> v \<and> v \<le> 150
     \<and> (\<exists>st. db_getStation env sid = Inr st \<and> i = sid \<and>
           v = max 50 (min 150 \<lceil>requestedValue (signalValue st) boostingSignal\<rceil>))"
proof (cases "db_getStation env sid")
  case (Inl e)
  with assms show ?thesis
    by (simp add: updateSignalValue_writes)
next
  case (Inr st)
  with assms have iv: "i = sid"
      "v = ceilSignalValue (requestedValue (signalValue st) boostingSignal)"
    by (simp_all add: updateSignalValue_writes)
  from ceilSignalValue_range [of "requestedValue (signalValue st) boostingSignal"] iv Inr
  show ?thesis
    by (simp add: ceilSignalValue_max_min signalDefault_def signalThreshold_def)
qed

theorem updateSignalValue_within_threshold_witness:
  "(5, 150) \<in> set (signalWrites (updateSignalValue (exampleEnv 4 400) 5 True transport))
     \<and> (50 :: int) \<le> 150 \<and> (150 :: int) \<le> 150"
proof -
  have h: "(5, 150) \<in> set (signalWrites (updateSignalValue (exampleEnv 4 400) 5 True transport))"
    by code_simp
  from updateSignalValue_within_threshold [OF h] h show ?thesis
    by simp
qed

lemma signalChange_spec: "signalChange sv b = spec_step sv b"
  by (auto simp add: signalChange_def spec_step_def Let_def)

lemma spec_step_nonneg:
  assumes "signalDefault - signalThreshold \<le> sv" "sv \<le> signalDefault + signalThreshold"
  shows "0 \<le> spec_step sv b"
  using assms
  by (auto simp add: spec_step_def Let_def signalDefault_def signalThreshold_def
      changePercentage_def signalMaxChange_def)

lemma ceilSignalValue_low: "x \<le> 50 \<Longrightarrow> ceilSignalValue x = 50"
proof -
  assume "x \<le> 50"
  then have "x \<le> of_int 50"
    by simp
  then have "\<lceil>x\<rceil> \<le> 50"
    by (simp only: ceiling_le_iff)
  then show ?thesis
    unfolding ceilSignalValue_max_min by linarith
qed

lemma below_range_requested: "(y :: rat) \<le> 49 \<Longrightarrow> y + - \<bar>(y - 50) / 5\<bar> \<le> 50"
  by linarith

lemma below_range_spec: "(y :: rat) \<le> 49 \<Longrightarrow> y - (y - 50) / 5 \<le> 50"
  by (simp add: field_simps)

lemma spec_step_negative:
  assumes "spec_step sv False < 0"
  shows "sv < 50 \<and> spec_step sv False = (of_int sv - 50) / 5"
  using assms
  by (auto simp add: spec_step_def Let_def signalDefault_def signalThreshold_def
      changePercentage_def signalMaxChange_def abs_if split: if_splits)

lemma ceilSignalValue_requested:
  "ceilSignalValue (requestedValue sv b) = ceilSignalValue (spec_requestedValue sv b)"
proof (cases "b \<or> 0 \<le> spec_step sv b")
  case True
  then show ?thesis
    by (auto simp add: requestedValue_def signalChange_spec spec_requestedValue_def)
next
  case False
  then have b: "\<not> b" and neg: "spec_step sv False < 0"
    by auto
  from spec_step_negative [OF neg] have sv: "sv < 50"
    and step: "spec_step sv False = (of_int sv - 50) / 5"
    by simp_all
  from sv have "sv \<le> 49"
    by simp
  then have "(of_int sv :: rat) \<le> of_int 49"
    by (simp only: of_int_le_iff)
  then have le: "(of_int sv :: rat) \<le> 49"
    by simp
  have "requestedValue sv False = of_int sv + - \<bar>(of_int sv - 50) / 5\<bar>"
    by (simp only: requestedValue_def signalChange_spec step if_False)
  with below_range_requested [OF le] have r: "requestedValue sv False \<le> 50"
    by (simp only:)
  have "spec_requestedValue sv False = of_int sv - (of_int sv - 50) / 5"
    by (simp only: spec_requestedValue_def step if_False)
  with below_range_spec [OF le] have q: "spec_requestedValue sv False \<le> 50"
    by (simp only:)
  from b ceilSignalValue_low [OF r] ceilSignalValue_low [OF q] show ?thesis
    by simp
qed

text \<open>
  Outside the invariant of the station, cutting a station below \<open>baseline - threshold\<close>,
  the proportional step is negative and the source subtracts its absolute value: at
  \<open>signalValue = 40\<close> it requests \<open>38\<close> where subtracting the step gives \<open>42\<close>. Both
  are rounded up and clamped to \<open>50\<close>.
\<close>

lemma requestedValue_cutting_below_range:
  "requestedValue 40 False = 38 \<and> spec_requestedValue 40 False = 42
     \<and> ceilSignalValue (requestedValue 40 False) = 50
     \<and> ceilSignalValue (spec_requestedValue 40 False) = 50"
  by code_simp

text \<open>
  Claim C5. For every station state \<open>updateSignalValue\<close> computes the difference and the
  step as the claim says: the proportional step \<open>(threshold - difference) * changePercentage\<close>,
  replaced by the maximal step exactly when boosting below the baseline or cutting above
  it. For every station state within the invariant of the station,
  \<open>[baseline - threshold, baseline + threshold]\<close>, the value it requests, before the
  round-up and the clamp, is \<open>signalValue + step\<close> when boosting and \<open>signalValue - step\<close>
  when cutting. For every station state whatsoever the value it asks the Station Store to
  persist is that signed-step value, rounded up and clamped.
\<close>

theorem requestedValue_signed_step:
  "signalChange sv boostingSignal = spec_step sv boostingSignal
   \<and> (signalDefault - signalThreshold \<le> sv \<and> sv \<le> signalDefault + signalThreshold
        \<longrightarrow> requestedValue sv boostingSignal = spec_requestedValue sv boostingSignal)
   \<and> (\<forall>env sid st. db_getStation env sid = Inr st \<and> signalValue st = sv \<longrightarrow>
         signalWrites (updateSignalValue env sid boostingSignal transport) =
           [(sid, ceilSignalValue (spec_requestedValue sv boostingSignal))])"
proof (intro conjI impI allI)
  show "signalChange sv boostingSignal = spec_step sv boostingSignal"
    by (rule signalChange_spec)
next
  assume "signalDefault - signalThreshold \<le> sv \<and> sv \<le> signalDefault + signalThreshold"
  then have "0 \<le> spec_step sv boostingSignal"
    by (simp add: spec_step_nonneg)
  then show "requestedValue sv boostingSignal = spec_requestedValue sv boostingSignal"
    by (auto simp add: requestedValue_def signalChange_spec spec_requestedValue_def)
next
  fix env :: env and sid and st :: station
  assume "db_getStation env sid = Inr st \<and> signalValue st = sv"
  then show "signalWrites (updateSignalValue env sid boostingSignal transport) =
      [(sid, ceilSignalValue (spec_requestedValue sv boostingSignal))]"
    by (simp add: updateSignalValue_writes ceilSignalValue_requested)
qed

theorem requestedValue_signed_step_witness:
  "signalDefault - signalThreshold \<le> 120 \<and> 120 \<le> signalDefault + signalThreshold
     \<and> signalChange 120 False = 10
     \<and> requestedValue 120 False = spec_requestedValue 120 False
     \<and> spec_requestedValue 120 False = 110
     \<and> signalWrites (updateSignalValue (exampleEnv 4 120) 5 False transport) = [(5, 110)]"
proof -
  have h: "signalDefault - signalThreshold \<le> 120 \<and> 120 \<le> signalDefault + signalThreshold"
    by (simp add: signalDefault_def signalThreshold_def)
  have v: "spec_requestedValue 120 False = 110"
    by code_simp
  have c: "signalChange 120 False = 10"
    by code_simp
  have w: "ceilSignalValue (spec_requestedValue 120 False) = 110"
    by code_simp
  have g: "db_getStation (exampleEnv 4 120) 5 = Inr (exampleStation 5 120)
      \<and> signalValue (exampleStation 5 120) = 120"
    by (simp add: exampleEnv_def exampleStation_def)
  from requestedValue_signed_step [of 120 False] h g
  have "requestedValue 120 False = spec_requestedValue 120 False"
    and "signalWrites (updateSignalValue (exampleEnv 4 120) 5 False transport) =
           [(5, ceilSignalValue (spec_requestedValue 120 False))]"
    by blast+
  with h v c w show ?thesis
    by simp
qed

text \<open>
  Claim C10, as stated: when the write succeeds, the callback is invoked more than once,
  the second time with the telemetry response. It fails: in the example world the store
  accepts the write and the telemetry endpoint answers 200, and the callback is invoked
  once, with \<open>{ success: true }\<close>. The second invocation is the listener for \<open>end\<close> of
  \<open>postRequest\<close>, and that event does not fire.
\<close>

theorem updateSignalValue_single_completion:
  "db_updateSignalValue (exampleEnv 4 100) 5 110 = None
   \<and> postReply (exampleEnv 4 100) 5 110 = Some 200
   \<and> updateSignalValue (exampleEnv 4 100) 5 True transport =
       [GetStation 5, UpdateSignalValue 5 110, Callback (Data Success), PostRequest 5 110]
   \<and> callbacks (updateSignalValue (exampleEnv 4 100) 5 True transport) = [Data Success]"
  by code_simp

text \<open>
  Claim C10, amended. Whenever the Station Store accepts the write, \<open>updateSignalValue\<close>
  invokes its callback exactly once for the call: with \<open>{ success: true }\<close>, right after
  the write and before the telemetry request is sent. The invocation with the telemetry
  response never happens, whatever the endpoint answers. This holds for every callback,
  hence for every caller.
\<close>

theorem updateSignalValue_completes_once:
  assumes "db_getStation env sid = Inr st"
    and "v = ceilSignalValue (requestedValue (signalValue st) boostingSignal)"
    and "db_updateSignalValue env sid v = None"
  shows "updateSignalValue env sid boostingSignal callback =
           GetStation sid # UpdateSignalValue sid v # callback (Data Success) @
           [PostRequest sid v]
     \<and> callbacks (updateSignalValue env sid boostingSignal transport) = [Data Success]"
  using assms
  by (simp add: updateSignalValue_def setNewValue_def postRequest_events Let_def transport_def)

theorem updateSignalValue_completes_once_witness:
  "updateSignalValue (exampleEnv 4 100) 5 True transport =
     [GetStation 5, UpdateSignalValue 5 110, Callback (Data Success), PostRequest 5 110]
   \<and> callbacks (updateSignalValue (exampleEnv 4 100) 5 True transport) = [Data Success]"
proof -
  have st: "db_getStation (exampleEnv 4 100) 5 = Inr (exampleStation 5 100)"
    by (simp add: exampleEnv_def)
  have v: "110 = ceilSignalValue (requestedValue (signalValue (exampleStation 5 100)) True)"
    by code_simp
  have w: "db_updateSignalValue (exampleEnv 4 100) 5 110 = None"
    by (simp add: exampleEnv_def)
  from updateSignalValue_completes_once [OF st v w, of transport] show ?thesis
    by (simp add: transport_def)
qed

subsection \<open>The Decay Scheduler\<close>

lemma signalWrites_append: "signalWrites (xs @ ys) = signalWrites xs @ signalWrites ys"
  by (induction xs rule: signalWrites.induct) simp_all

lemma resetStation_writes:
  "signalWrites (resetStation env transport st) =
     (if signalValue st \<noteq> signalDefault
      then [(station.stationId st, newSignalValue (signalValue st))] else [])"
  by (simp add: resetStation_def postRequest_events transport_def Let_def split: option.splits)

lemma concat_resetStation_writes:
  "signalWrites (concat (map (resetStation env transport) stations)) =
     map (\<lambda>st. (station.stationId st, newSignalValue (signalValue st)))
       (filter (\<lambda>st. signalValue st \<noteq> signalDefault) stations)"
  by (induction stations) (simp_all add: signalWrites_append resetStation_writes)

lemma newSignalValue_toward:
  "sv \<noteq> signalDefault \<Longrightarrow>
     \<bar>newSignalValue sv - signalDefault\<bar> = \<bar>sv - signalDefault\<bar> - 1"
  by (simp add: newSignalValue_def)

text \<open>
  Claim C6. When the Station Store answers the stations, one tick of \<open>resetStations\<close>
  sends exactly one write request for every station whose \<open>signalValue\<close> differs from
  the baseline, in the order of the stations, and none for a station at the baseline. The
  value written is the old value minus one for a station above the baseline and plus one
  for a station below it; its distance to the baseline is the old distance minus one, so
  it is never on the other side of the baseline.
\<close>

theorem resetStations_one_unit_toward_baseline:
  assumes "db_getAllStations env = Inr stations"
  shows "signalWrites (resetStations env transport) =
           map (\<lambda>st. (station.stationId st,
                      if signalValue st > signalDefault then signalValue st - 1
                      else signalValue st + 1))
             (filter (\<lambda>st. signalValue st \<noteq> signalDefault) stations)
     \<and> (\<forall>st \<in> set stations. signalValue st \<noteq> signalDefault \<longrightarrow>
           \<bar>newSignalValue (signalValue st) - signalDefault\<bar> =
             \<bar>signalValue st - signalDefault\<bar> - 1)"
proof -
  have "map (\<lambda>st. (station.stationId st, newSignalValue (signalValue st)))
          (filter (\<lambda>st. signalValue st \<noteq> signalDefault) stations) =
        map (\<lambda>st. (station.stationId st,
                   if signalValue st > signalDefault then signalValue st - 1
                   else signalValue st + 1))
          (filter (\<lambda>st. signalValue st \<noteq> signalDefault) stations)"
    by (rule map_cong) (simp_all add: newSignalValue_def)
  with assms show ?thesis
    by (simp add: resetStations_def concat_resetStation_writes newSignalValue_toward)
qed

theorem resetStations_one_unit_toward_baseline_witness:
  "signalWrites (resetStations
       (exampleDecayEnv [exampleStation 1 107, exampleStation 2 100, exampleStation 3 93])
       transport) = [(1, 106), (3, 94)]
   \<and> \<bar>newSignalValue 107 - signalDefault\<bar> = \<bar>107 - signalDefault\<bar> - 1"
proof -
  let ?stations = "[exampleStation 1 107, exampleStation 2 100, exampleStation 3 93]"
  have h: "db_getAllStations (exampleDecayEnv ?stations) = Inr ?stations"
    by (simp add: exampleDecayEnv_def)
  from resetStations_one_unit_toward_baseline [OF h] show ?thesis
    by (simp add: exampleStation_def signalDefault_def)
qed

text \<open>
  Claim C7 says that a tick schedules exactly one next tick, however many stations it
  adjusted. The source calls \<open>setTimeout\<close> inside the callback of each write request:
  a tick that finds every station at the baseline, or no station at all, sets no timer
  and the decay stops; a tick that adjusts two stations sets two timers.
\<close>

theorem resetStations_timer_count:
  "count_list (resetStations
       (exampleDecayEnv [exampleStation 1 100, exampleStation 2 100]) transport)
     SetTimeout = 0
   \<and> count_list (resetStations (exampleDecayEnv []) transport) SetTimeout = 0
   \<and> count_list (resetStations (exampleDecayEnv [exampleStation 1 107]) transport)
       SetTimeout = 1
   \<and> count_list (resetStations
         (exampleDecayEnv [exampleStation 1 107, exampleStation 2 100, exampleStation 3 93])
         transport)
       SetTimeout = 2"
  by code_simp

lemma count_list_append_events:
  "count_list (xs @ ys) (x :: event) = count_list xs x + count_list ys x"
  by (induction xs) simp_all

text \<open>
  In general a tick sets one timer for every station off the baseline whose write the
  store accepts.
\<close>

lemma resetStations_timers:
  assumes "db_getAllStations env = Inr stations"
  shows "count_list (resetStations env transport) SetTimeout =
     length (filter (\<lambda>st. signalValue st \<noteq> signalDefault \<and>
        db_updateSignalValue env (station.stationId st) (newSignalValue (signalValue st)) = None)
       stations)"
proof -
  have "count_list (concat (map (resetStation env transport) sts)) SetTimeout =
     length (filter (\<lambda>st. signalValue st \<noteq> signalDefault \<and>
        db_updateSignalValue env (station.stationId st) (newSignalValue (signalValue st)) = None)
       sts)" for sts
    by (induction sts)
      (auto simp add: count_list_append_events resetStation_def postRequest_events
        transport_def Let_def split: option.splits)
  with assms show ?thesis
    by (simp add: resetStations_def)
qed

subsection \<open>The challenge payload\<close>





subsection \<open>Guess evaluation\<close>

lemma manipulateStation_mismatch:
  assumes "isValidData env pw b" "isUserAllowed env token = Inr user"
    "db_getLanternHack env user = Inr hack" "find isCorrect (gameUsers hack) = Some cu"
    "\<not> (gameUser.password cu = toLowerCase pw \<and> lanternHack.triesLeft hack > 0)"
    "db_lowerHackTries env user = Inr lowered"
  shows "manipulateStation env pw b token callback =
     IsUserAllowed token # GetLanternHack user # LowerHackTries user #
       (if lanternHack.triesLeft lowered \<le> 0
        then RemoveLanternHack user #
             (case db_removeLanternHack env user of
                Some removeError \<Rightarrow> callback (Error removeError)
              | None \<Rightarrow> callback (Data (HackFailed (lanternHack.triesLeft lowered) None)))
        else callback (Data (HackFailed (lanternHack.triesLeft lowered)
               (Some (length (matches (gameUser.password cu) pw))))))"
  using assms by (auto simp add: manipulateStation_def)

lemma manipulateStation_match:
  assumes "isValidData env pw b" "isUserAllowed env token = Inr user"
    "db_getLanternHack env user = Inr hack" "find isCorrect (gameUsers hack) = Some cu"
    "gameUser.password cu = toLowerCase pw" "lanternHack.triesLeft hack > 0"
  shows "manipulateStation env pw b token callback =
     IsUserAllowed token # GetLanternHack user #
     updateSignalValue env (lanternHack.stationId hack) b
       (\<lambda>r. case r of
              Error updateError \<Rightarrow> callback (Error (External ''wrecking''))
            | Data d \<Rightarrow>
                RemoveLanternHack user #
                (case db_removeLanternHack env user of
                   Some removeError \<Rightarrow> callback (Error removeError)
                 | None \<Rightarrow> callback (Data (HackSuccess b))))"
  using assms by (simp add: manipulateStation_def)

lemma example_valid: "isValidData (exampleEnv tries sv) pw b"
  by (simp add: exampleEnv_def)

lemma example_user: "isUserAllowed (exampleEnv tries sv) token = Inr ''carol''"
  by (simp add: exampleEnv_def)

lemma example_hack: "db_getLanternHack (exampleEnv tries sv) user = Inr (exampleHack tries)"
  by (simp add: exampleEnv_def)

lemma example_correct: "find isCorrect (gameUsers (exampleHack tries)) = Some alice"
  by (simp add: exampleHack_def alice_def)

lemma example_lowered:
  "db_lowerHackTries (exampleEnv tries sv) user = Inr (exampleHack (tries - 1))"
  by (simp add: exampleEnv_def)

lemma indexOf_nonneg_iff: "0 \<le> indexOf xs c \<longleftrightarrow> c \<in> set xs"
  by (induction xs) (auto simp add: Let_def)

lemma indexOf_absent: "c \<notin> set xs \<Longrightarrow> indexOf xs c = - 1"
  by (induction xs) (auto simp add: Let_def)

lemma first_occurrences_positional:
  "distinct g \<Longrightarrow> distinct c \<Longrightarrow>
     length (filter (\<lambda>x. indexOf c x = indexOf g x) g) =
     length (filter (\<lambda>(a, b). a = b) (zip g c))"
proof (induction g arbitrary: c)
  case Nil
  then show ?case by simp
next
  case (Cons x xs)
  show ?case
  proof (cases c)
    case Nil
    have "indexOf [] z \<noteq> indexOf (x # xs) z" if "z \<in> set (x # xs)" for z
      using that indexOf_nonneg_iff [of "x # xs" z] by simp
    then have "filter (\<lambda>z. indexOf [] z = indexOf (x # xs) z) (x # xs) = []"
      unfolding filter_empty_conv by blast
    with Nil show ?thesis by simp
  next
    case (Cons y ys)
    let ?P = "\<lambda>z. indexOf (y # ys) z = indexOf (x # xs) z"
    have tail: "filter ?P xs = filter (\<lambda>z. indexOf ys z = indexOf xs z) xs"
    proof (rule filter_cong [OF refl])
      fix z assume z: "z \<in> set xs"
      with Cons.prems(1) have zx: "x \<noteq> z" by auto
      from z have nn: "0 \<le> indexOf xs z" by (simp add: indexOf_nonneg_iff)
      show "(indexOf (y # ys) z = indexOf (x # xs) z) = (indexOf ys z = indexOf xs z)"
      proof (cases "y = z")
        case True
        with Cons.prems(2) Cons have "z \<notin> set ys" by auto
        then have "indexOf ys z = - 1" by (rule indexOf_absent)
        with True zx nn show ?thesis by (simp add: Let_def)
      next
        case False
        with zx nn show ?thesis by (auto simp add: Let_def)
      qed
    qed
    have head: "?P x = (x = y)"
      by (auto simp add: Let_def)
    from Cons.prems Cons have d: "distinct xs" "distinct ys" by auto
    have "length (filter ?P (x # xs)) = (if ?P x then 1 else 0) + length (filter ?P xs)"
      by (simp only: filter.simps) (simp del: indexOf.simps)
    also have "\<dots> = (if x = y then 1 else 0) + length (filter (\<lambda>z. indexOf ys z = indexOf xs z) xs)"
      by (simp only: head tail)
    also have "\<dots> = (if x = y then 1 else 0) + length (filter (\<lambda>(a, b). a = b) (zip xs ys))"
      by (simp only: Cons.IH [OF d])
    also have "\<dots> = length (filter (\<lambda>(a, b). a = b) (zip (x # xs) (y # ys)))"
      by simp
    finally show ?thesis
      by (simp only: Cons)
  qed
qed

text \<open>
  The count of the source and the positional count agree when no character occurs twice
  in the case-folded guess and none occurs twice in the correct password: the first index
  of a character is then its only index.
\<close>

lemma matches_positional:
  "distinct (toLowerCase pw) \<Longrightarrow> distinct correctPassword \<Longrightarrow>
     length (matches correctPassword pw) = spec_positionalMatches correctPassword pw"
  by (simp add: matches_def spec_positionalMatches_def Let_def first_occurrences_positional)

text \<open>
  Claim C1 says that the match count is the number of positions at which the guess and
  the correct password agree. The source compares, for every character of the guess, the
  first index of the character in the password with its first index in the guess. For
  the specification's example, \<open>abcee\<close> against \<open>abxyz\<close>, both counts are 2. For the
  guess \<open>abcde\<close> the final \<open>e\<close> agrees with the password at position 4, but its first
  index is 4 in the guess and 3 in the password: the source answers 3 matches, the
  positional count is 4. For the guess \<open>aaaaa\<close> the source answers 5, the positional
  count is 1.
\<close>

theorem matches_counts_first_occurrences:
  "manipulateStation (exampleEnv 4 100) ''abxyz'' True ''token'' transport =
     [IsUserAllowed ''token'', GetLanternHack ''carol'', LowerHackTries ''carol'',
      Callback (Data (HackFailed 3 (Some 2)))]
   \<and> spec_positionalMatches ''abcee'' ''abxyz'' = 2
   \<and> manipulateStation (exampleEnv 4 100) ''abcde'' True ''token'' transport =
     [IsUserAllowed ''token'', GetLanternHack ''carol'', LowerHackTries ''carol'',
      Callback (Data (HackFailed 3 (Some 3)))]
   \<and> spec_positionalMatches ''abcee'' ''abcde'' = 4
   \<and> manipulateStation (exampleEnv 4 100) ''aaaaa'' True ''token'' transport =
     [IsUserAllowed ''token'', GetLanternHack ''carol'', LowerHackTries ''carol'',
      Callback (Data (HackFailed 3 (Some 5)))]
   \<and> spec_positionalMatches ''abcee'' ''aaaaa'' = 1"
  by code_simp

lemma manipulateStation_success_events:
  assumes "e \<in> set (manipulateStation env pw b token transport)" "successEvent e"
  shows "\<exists>user hack cu.
           isUserAllowed env token = Inr user \<and> db_getLanternHack env user = Inr hack
           \<and> find isCorrect (gameUsers hack) = Some cu
           \<and> gameUser.password cu = toLowerCase pw \<and> 0 < lanternHack.triesLeft hack"
  using assms
  by (auto simp add: manipulateStation_def transport_def
      split: sum.splits option.splits if_splits)

text \<open>
  Claim C2. The success branch of \<open>manipulateStation\<close> (a request of the Signal Engine,
  the answer \<open>{ success: true, boostingSignal }\<close>) is taken only when the case-folded
  guess is the password of the correct candidate and the session has \<open>triesLeft > 0\<close>.
  So for a session with \<open>triesLeft \<le> 0\<close> no guess succeeds, the correct password included.
\<close>

theorem manipulateStation_success_needs_tries:
  "(filter successEvent (manipulateStation env pw b token transport) \<noteq> [] \<longrightarrow>
      (\<exists>user hack cu.
          isUserAllowed env token = Inr user \<and> db_getLanternHack env user = Inr hack
          \<and> find isCorrect (gameUsers hack) = Some cu
          \<and> gameUser.password cu = toLowerCase pw \<and> 0 < lanternHack.triesLeft hack))
   \<and> (\<forall>user hack.
        isUserAllowed env token = Inr user \<and> db_getLanternHack env user = Inr hack
        \<and> lanternHack.triesLeft hack \<le> 0 \<longrightarrow>
        filter successEvent (manipulateStation env pw b token transport) = [])"
proof (intro conjI impI allI)
  assume "filter successEvent (manipulateStation env pw b token transport) \<noteq> []"
  then obtain e where "e \<in> set (manipulateStation env pw b token transport)" "successEvent e"
    by (auto simp add: filter_empty_conv)
  then show "\<exists>user hack cu.
      isUserAllowed env token = Inr user \<and> db_getLanternHack env user = Inr hack
      \<and> find isCorrect (gameUsers hack) = Some cu
      \<and> gameUser.password cu = toLowerCase pw \<and> 0 < lanternHack.triesLeft hack"
    by (rule manipulateStation_success_events)
next
  fix user hack
  assume h: "isUserAllowed env token = Inr user \<and> db_getLanternHack env user = Inr hack
      \<and> lanternHack.triesLeft hack \<le> 0"
  show "filter successEvent (manipulateStation env pw b token transport) = []"
  proof (rule ccontr)
    assume "filter successEvent (manipulateStation env pw b token transport) \<noteq> []"
    then obtain e where "e \<in> set (manipulateStation env pw b token transport)" "successEvent e"
      by (auto simp add: filter_empty_conv)
    from manipulateStation_success_events [OF this] h show False
      by auto
  qed
qed

theorem manipulateStation_success_needs_tries_witness:
  "gameUser.password alice = toLowerCase ''ABCEE''
   \<and> lanternHack.triesLeft (exampleHack 0) = 0
   \<and> filter successEvent
       (manipulateStation (exampleEnv 0 100) ''ABCEE'' True ''token'' transport) = []
   \<and> manipulateStation (exampleEnv 0 100) ''ABCEE'' True ''token'' transport =
       [IsUserAllowed ''token'', GetLanternHack ''carol'', LowerHackTries ''carol'',
        RemoveLanternHack ''carol'', Callback (Data (HackFailed (- 1) None))]"
proof -
  have p: "gameUser.password alice = toLowerCase ''ABCEE''"
    by code_simp
  have t: "lanternHack.triesLeft (exampleHack 0) = 0"
    by (simp add: exampleHack_def)
  have h: "isUserAllowed (exampleEnv 0 100) ''token'' = Inr ''carol''
      \<and> db_getLanternHack (exampleEnv 0 100) ''carol'' = Inr (exampleHack 0)
      \<and> lanternHack.triesLeft (exampleHack 0) \<le> 0"
    by (simp add: example_user example_hack t)
  have r: "manipulateStation (exampleEnv 0 100) ''ABCEE'' True ''token'' transport =
       [IsUserAllowed ''token'', GetLanternHack ''carol'', LowerHackTries ''carol'',
        RemoveLanternHack ''carol'', Callback (Data (HackFailed (- 1) None))]"
    by code_simp
  from manipulateStation_success_needs_tries
    [of "exampleEnv 0 100" "''ABCEE''" True "''token''"] h
  have "filter successEvent
       (manipulateStation (exampleEnv 0 100) ''ABCEE'' True ''token'' transport) = []"
    by blast
  with p t r show ?thesis
    by simp
qed

text \<open>
  Claim C3. On the success path (the case-folded guess is the password of the correct
  candidate and \<open>triesLeft > 0\<close>), when the Signal Engine fails, because the Station
  Store fails to read the station or fails to write the new value, the callback is
  invoked once, with the error \<open>External\<close>, and no request is sent that lowers the
  tries of the session or removes it.
\<close>

theorem manipulateStation_engine_failure:
  assumes "isValidData env pw b" "isUserAllowed env token = Inr user"
    "db_getLanternHack env user = Inr hack" "find isCorrect (gameUsers hack) = Some cu"
    "gameUser.password cu = toLowerCase pw" "lanternHack.triesLeft hack > 0"
    "(\<exists>e. db_getStation env (lanternHack.stationId hack) = Inl e) \<or>
     (\<exists>st e. db_getStation env (lanternHack.stationId hack) = Inr st \<and>
        db_updateSignalValue env (lanternHack.stationId hack)
          (ceilSignalValue (requestedValue (signalValue st) b)) = Some e)"
  shows "callbacks (manipulateStation env pw b token transport) =
           [Error (External ''wrecking'')]
       \<and> sessionWrites (manipulateStation env pw b token transport) = []"
  using assms(7)
  by (auto simp add: manipulateStation_match [OF assms(1-6)] updateSignalValue_def
      setNewValue_def postRequest_events Let_def transport_def)

theorem manipulateStation_engine_failure_witness:
  "callbacks (manipulateStation exampleReadFailureEnv ''ABCEE'' True ''token'' transport) =
     [Error (External ''wrecking'')]
   \<and> sessionWrites (manipulateStation exampleReadFailureEnv ''ABCEE'' True ''token'' transport) = []
   \<and> callbacks (manipulateStation exampleWriteFailureEnv ''ABCEE'' True ''token'' transport) =
     [Error (External ''wrecking'')]
   \<and> sessionWrites (manipulateStation exampleWriteFailureEnv ''ABCEE'' True ''token'' transport) = []"
proof -
  have p: "gameUser.password alice = toLowerCase ''ABCEE''"
    by code_simp
  have t: "lanternHack.triesLeft (exampleHack 4) > 0"
    by (simp add: exampleHack_def)
  have r1: "isValidData exampleReadFailureEnv ''ABCEE'' True"
    and r2: "isUserAllowed exampleReadFailureEnv ''token'' = Inr ''carol''"
    and r3: "db_getLanternHack exampleReadFailureEnv ''carol'' = Inr (exampleHack 4)"
    by (simp_all add: exampleReadFailureEnv_def exampleEnv_def)
  have r7: "(\<exists>e. db_getStation exampleReadFailureEnv (lanternHack.stationId (exampleHack 4)) = Inl e) \<or>
     (\<exists>st e. db_getStation exampleReadFailureEnv (lanternHack.stationId (exampleHack 4)) = Inr st \<and>
        db_updateSignalValue exampleReadFailureEnv (lanternHack.stationId (exampleHack 4))
          (ceilSignalValue (requestedValue (signalValue st) True)) = Some e)"
    by (simp add: exampleReadFailureEnv_def exampleEnv_def)
  have w1: "isValidData exampleWriteFailureEnv ''ABCEE'' True"
    and w2: "isUserAllowed exampleWriteFailureEnv ''token'' = Inr ''carol''"
    and w3: "db_getLanternHack exampleWriteFailureEnv ''carol'' = Inr (exampleHack 4)"
    by (simp_all add: exampleWriteFailureEnv_def exampleEnv_def)
  have w7: "(\<exists>e. db_getStation exampleWriteFailureEnv (lanternHack.stationId (exampleHack 4)) = Inl e) \<or>
     (\<exists>st e. db_getStation exampleWriteFailureEnv (lanternHack.stationId (exampleHack 4)) = Inr st \<and>
        db_updateSignalValue exampleWriteFailureEnv (lanternHack.stationId (exampleHack 4))
          (ceilSignalValue (requestedValue (signalValue st) True)) = Some e)"
    by (simp add: exampleWriteFailureEnv_def exampleEnv_def)
  from manipulateStation_engine_failure [OF r1 r2 r3 example_correct p t r7]
    manipulateStation_engine_failure [OF w1 w2 w3 example_correct p t w7]
  show ?thesis
    by simp
qed

text \<open>
  Claim C8, as stated: every failed guess returns a matches count. It fails for the guess
  that exhausts the last try: the answer is \<open>{ success: false, triesLeft: 0 }\<close>, without
  \<open>matches\<close>.
\<close>

theorem manipulateStation_exhausted_without_matches:
  "manipulateStation (exampleEnv 1 100) ''abxyz'' True ''token'' transport =
     [IsUserAllowed ''token'', GetLanternHack ''carol'', LowerHackTries ''carol'',
      RemoveLanternHack ''carol'', Callback (Data (HackFailed 0 None))]"
  by code_simp

text \<open>
  Claim C8, amended. On the mismatch path, when the Session Store answers the lowered
  session: if tries remain, the callback is invoked once, with \<open>success: false\<close>, the
  lowered \<open>triesLeft\<close> and the matches count; if none remain and the session is removed,
  the callback is invoked once, with \<open>success: false\<close> and the lowered \<open>triesLeft\<close>, and
  without a matches count.
\<close>

theorem manipulateStation_failed_guess:
  assumes "isValidData env pw b" "isUserAllowed env token = Inr user"
    "db_getLanternHack env user = Inr hack" "find isCorrect (gameUsers hack) = Some cu"
    "\<not> (gameUser.password cu = toLowerCase pw \<and> lanternHack.triesLeft hack > 0)"
    "db_lowerHackTries env user = Inr lowered"
  shows "(lanternHack.triesLeft lowered > 0 \<longrightarrow>
           callbacks (manipulateStation env pw b token transport) =
             [Data (HackFailed (lanternHack.triesLeft lowered)
                (Some (length (matches (gameUser.password cu) pw))))])
       \<and> (lanternHack.triesLeft lowered \<le> 0 \<and> db_removeLanternHack env user = None \<longrightarrow>
           callbacks (manipulateStation env pw b token transport) =
             [Data (HackFailed (lanternHack.triesLeft lowered) None)])"
  by (simp add: manipulateStation_mismatch [OF assms] transport_def)

theorem manipulateStation_failed_guess_witness:
  "callbacks (manipulateStation (exampleEnv 4 100) ''abxyz'' True ''token'' transport) =
     [Data (HackFailed 3 (Some 2))]
   \<and> callbacks (manipulateStation (exampleEnv 1 100) ''abxyz'' True ''token'' transport) =
     [Data (HackFailed 0 None)]"
proof -
  have m: "\<not> (gameUser.password alice = toLowerCase ''abxyz''
              \<and> lanternHack.triesLeft (exampleHack tries) > 0)" for tries
    by (simp add: alice_def toLowerCase_def lowerChar_def)
  have l4: "lanternHack.triesLeft (exampleHack (4 - 1)) = 3"
    and l1: "lanternHack.triesLeft (exampleHack (1 - 1)) = 0"
    by (simp_all add: exampleHack_def)
  have n: "length (matches (gameUser.password alice) ''abxyz'') = 2"
    by code_simp
  have d: "db_removeLanternHack (exampleEnv 1 100) ''carol'' = None"
    by (simp add: exampleEnv_def)
  from manipulateStation_failed_guess
      [OF example_valid example_user example_hack example_correct m example_lowered,
        of 4 100 True "''token''"]
    manipulateStation_failed_guess
      [OF example_valid example_user example_hack example_correct m example_lowered,
        of 1 100 True "''token''"]
    l4 l1 n d
  show ?thesis
    by simp
qed

text \<open>
  The success path of \<open>manipulateStation\<close> as a whole, when every collaborator answers
  without error: the one completion of \<open>updateSignalValue\<close> removes the session and
  answers the transport layer once.
\<close>

lemma manipulateStation_success:
  assumes "isValidData env pw b" "isUserAllowed env token = Inr user"
    "db_getLanternHack env user = Inr hack" "find isCorrect (gameUsers hack) = Some cu"
    "gameUser.password cu = toLowerCase pw" "lanternHack.triesLeft hack > 0"
    "db_getStation env (lanternHack.stationId hack) = Inr st"
    "v = ceilSignalValue (requestedValue (signalValue st) b)"
    "db_updateSignalValue env (lanternHack.stationId hack) v = None"
    "db_removeLanternHack env user = None"
  shows "manipulateStation env pw b token transport =
     [IsUserAllowed token, GetLanternHack user, GetStation (lanternHack.stationId hack),
      UpdateSignalValue (lanternHack.stationId hack) v,
      RemoveLanternHack user, Callback (Data (HackSuccess b)),
      PostRequest (lanternHack.stationId hack) v]"
  using assms(7-10)
  by (simp add: manipulateStation_match [OF assms(1-6)] updateSignalValue_def
      setNewValue_def postRequest_events Let_def transport_def)

end
